theory Spec2Isabelle
  imports Main "HOL-Library.Sublist"
begin

section \<open>Python strings\<close>

text \<open>
  A Python \<open>str\<close> is modelled as a \<open>string\<close>: one \<open>char\<close> per code point, which
  covers the code points below U+0100. The text of a file is the \<open>str\<close> that
  \<open>read_file\<close> returns.
\<close>

definition NL :: char where
  "NL = CHR 0x0A"

definition TAB :: char where
  "TAB = CHR 0x09"

definition BSL :: char where
  "BSL = CHR 0x5C"

definition isspace :: "char \<Rightarrow> bool" where
  \<comment> \<open>\<open>str.isspace\<close> on one code point, which is also the class \<open>\s\<close> of \<open>re\<close> on a
      \<open>str\<close> pattern: U+0009..U+000D, U+001C..U+0020, U+0085 and U+00A0.\<close>
  "isspace c =
     (let n = (of_char c :: nat)
      in (9 \<le> n \<and> n \<le> 13) \<or> (28 \<le> n \<and> n \<le> 32) \<or> n = 133 \<or> n = 160)"

definition lstrip :: "string \<Rightarrow> string" where
  "lstrip s = dropWhile isspace s"

definition rstrip :: "string \<Rightarrow> string" where
  "rstrip s = rev (dropWhile isspace (rev s))"

definition strip :: "string \<Rightarrow> string" where
  "strip s = rstrip (lstrip s)"

text \<open>\<open>s.replace(old, new)\<close>: the occurrences of \<open>old\<close> are found from the left and do
  not overlap; an empty \<open>old\<close> matches before every character and at the end.\<close>

function replace :: "string \<Rightarrow> string \<Rightarrow> string \<Rightarrow> string" where
  "replace old new [] = (if old = [] then new else [])"
| "replace old new (c # cs) =
     (if old = [] then new @ c # replace old new cs
      else if prefix old (c # cs) then new @ replace old new (drop (length old) (c # cs))
      else c # replace old new cs)"
  by pat_completeness auto
termination
  by (relation "measure (\<lambda>(old, new, s). length s)") auto

text \<open>\<open>sep.join(xs)\<close>.\<close>

fun join_str :: "string \<Rightarrow> string list \<Rightarrow> string" where
  "join_str sep [] = []"
| "join_str sep [x] = x"
| "join_str sep (x # y # ys) = x @ sep @ join_str sep (y # ys)"

text \<open>\<open>x in s\<close> on strings is \<open>sublist x s\<close>, \<open>s.endswith(x)\<close> is \<open>suffix x s\<close>.\<close>

section \<open>The regular expression of \<open>update_makefile\<close>\<close>

text \<open>
  The pattern is \<^verbatim>\<open>^CFLAGS\s*(:|\?|)=\s*(.*)$\<close> under \<open>re.MULTILINE\<close>. Each of its
  greedy parts can match in one way only: \<open>\s*\<close> takes every white-space character
  (line feeds too), after which the next character is not white space; the group
  \<open>(:|\?|)\<close> followed by \<open>=\<close> is decided by the next two characters; \<open>.*\<close> takes
  the rest of the line, where \<open>$\<close> holds. So a match attempt at a position is a
  function of the text from there.
\<close>

definition match_op :: "string \<Rightarrow> (string \<times> string) option" where
  \<comment> \<open>\<^verbatim>\<open>(:|\?|)=\<close>: group 1 and the text after the \<open>=\<close>.\<close>
  "match_op s =
     (if prefix '':='' s then Some ('':'', drop 2 s)
      else if prefix ''?='' s then Some (''?'', drop 2 s)
      else if prefix ''='' s then Some ('''', drop 1 s)
      else None)"

definition match_at :: "string \<Rightarrow> (string \<times> string \<times> string) option" where
  \<comment> \<open>A match attempt at the start of a line: group 1, group 2 and the text after
      the match.\<close>
  "match_at s =
     (if prefix ''CFLAGS'' s then
        (case match_op (dropWhile isspace (drop 6 s)) of
           None \<Rightarrow> None
         | Some (opr, r) \<Rightarrow>
             let v = dropWhile isspace r
             in Some (opr, takeWhile (\<lambda>c. c \<noteq> NL) v, dropWhile (\<lambda>c. c \<noteq> NL) v))
      else None)"

text \<open>
  One scan of the text from the left, as \<open>re.findall\<close> and \<open>re.sub\<close> both do it:
  a character outside every match, or a match with its groups 0, 1 and 2. The flag
  says whether the position is at the start of a line (\<open>^\<close>). A match ends before
  a line feed or at the end of the text, so the position after it is not at the
  start of a line.
\<close>

datatype token = Plain char | Hit string string string

function re_scan :: "bool \<Rightarrow> string \<Rightarrow> token list" where
  "re_scan bol [] = []"
| "re_scan bol (c # cs) =
     (if bol then
        (case match_at (c # cs) of
           Some (opr, v, rest) \<Rightarrow>
             Hit (take (length (c # cs) - length rest) (c # cs)) opr v # re_scan False rest
         | None \<Rightarrow> Plain c # re_scan (c = NL) cs)
      else Plain c # re_scan (c = NL) cs)"
  by pat_completeness auto
termination
proof (relation "measure (\<lambda>(bol, s). length s)")
  show "wf (measure (\<lambda>(bol, s). length s))"
    by simp
next
  fix bol :: bool and c :: char and cs :: string and x2 :: "string \<times> string \<times> string"
    and opr :: string and y :: "string \<times> string" and v rest :: string
  assume "bol" and "match_at (c # cs) = Some x2" and "(opr, y) = x2" and "(v, rest) = y"
  then obtain r where
    r: "match_op (dropWhile isspace (drop 6 (c # cs))) = Some (opr, r)"
    and rest: "rest = dropWhile (\<lambda>c. c \<noteq> NL) (dropWhile isspace r)"
    by (auto simp: match_at_def Let_def split: if_splits option.splits)
  have "length rest \<le> length (dropWhile isspace r)"
    unfolding rest by (rule length_dropWhile_le)
  also have "\<dots> \<le> length r"
    by (rule length_dropWhile_le)
  also have "\<dots> < length (dropWhile isspace (drop 6 (c # cs)))"
    using r by (auto simp: match_op_def prefix_def split: if_splits)
  also have "\<dots> \<le> length (drop 6 (c # cs))"
    by (rule length_dropWhile_le)
  also have "\<dots> \<le> length (c # cs)"
    by simp
  finally show "((False, rest), (bol, c # cs)) \<in> measure (\<lambda>(bol, s). length s)"
    by simp
qed simp_all

fun hits :: "token list \<Rightarrow> (string \<times> string) list" where
  "hits [] = []"
| "hits (Plain c # ts) = hits ts"
| "hits (Hit w opr v # ts) = (opr, v) # hits ts"

definition re_findall :: "string \<Rightarrow> (string \<times> string) list" where
  \<comment> \<open>\<open>re.findall(pattern, text, re.MULTILINE)\<close>: the pairs (group 1, group 2).\<close>
  "re_findall text = hits (re_scan True text)"

subsection \<open>The replacement template of \<open>re.sub\<close>\<close>

text \<open>
  \<open>re.sub\<close> reads its replacement string as a template: a backslash starts an
  escape or a group reference. This follows \<open>parse_template\<close> of CPython 3.12 for
  a pattern with two unnamed groups. A group name that is not a run of ASCII digits
  is an error there (CPython 3.11 and older still read a padded or signed number
  such as \<^verbatim>\<open>\g< 1>\<close>, with a deprecation warning), and so is a name that holds a
  backslash or has no closing \<open>>\<close>, so the name can be read character by
  character. \<open>TemplateError\<close> stands for the \<open>re.error\<close> or \<open>IndexError\<close> that the
  template compiler raises.
\<close>

datatype py_error = FileNotFoundError | TemplateError | CalledProcessError

datatype tpart = Lit char | Grp nat

definition is_digit :: "char \<Rightarrow> bool" where
  "is_digit c = (48 \<le> (of_char c :: nat) \<and> (of_char c :: nat) \<le> 57)"

definition is_octdigit :: "char \<Rightarrow> bool" where
  "is_octdigit c = (48 \<le> (of_char c :: nat) \<and> (of_char c :: nat) \<le> 55)"

definition is_ascii_letter :: "char \<Rightarrow> bool" where
  "is_ascii_letter c =
     (let n = (of_char c :: nat) in (65 \<le> n \<and> n \<le> 90) \<or> (97 \<le> n \<and> n \<le> 122))"

definition digit_val :: "char \<Rightarrow> nat" where
  "digit_val c = of_char c - 48"

definition number :: "nat \<Rightarrow> string \<Rightarrow> nat" where
  \<comment> \<open>\<open>int(s, base)\<close> on a run of digits.\<close>
  "number base s = foldl (\<lambda>n c. base * n + digit_val c) 0 s"

definition add_lit :: "char \<Rightarrow> py_error + tpart list \<Rightarrow> py_error + tpart list" where
  "add_lit c r = (case r of Inl e \<Rightarrow> Inl e | Inr ps \<Rightarrow> Inr (Lit c # ps))"

definition add_group :: "nat \<Rightarrow> py_error + tpart list \<Rightarrow> py_error + tpart list" where
  \<comment> \<open>\<open>addgroup\<close>: the pattern has two groups.\<close>
  "add_group i r =
     (if i > 2 then Inl TemplateError
      else case r of Inl e \<Rightarrow> Inl e | Inr ps \<Rightarrow> Inr (Grp i # ps))"

definition escape_char :: "char \<Rightarrow> char option" where
  \<comment> \<open>The table \<open>ESCAPES\<close>: \<open>\a \b \f \n \r \t \v \\\<close>.\<close>
  "escape_char c =
     (if c = CHR ''a'' then Some (CHR 0x07)
      else if c = CHR ''b'' then Some (CHR 0x08)
      else if c = CHR ''f'' then Some (CHR 0x0C)
      else if c = CHR ''n'' then Some (CHR 0x0A)
      else if c = CHR ''r'' then Some (CHR 0x0D)
      else if c = CHR ''t'' then Some (CHR 0x09)
      else if c = CHR ''v'' then Some (CHR 0x0B)
      else if c = BSL then Some BSL
      else None)"

function parse_template :: "string \<Rightarrow> py_error + tpart list" where
  "parse_template [] = Inr []"
| "parse_template (c # cs) =
     (if c \<noteq> BSL then add_lit c (parse_template cs)
      else case cs of
        [] \<Rightarrow> Inl TemplateError
      | d # ds \<Rightarrow>
          if d = CHR ''g'' then
            (case ds of
               [] \<Rightarrow> Inl TemplateError
             | l # ns \<Rightarrow>
                 let name = takeWhile (\<lambda>x. x \<noteq> CHR ''>'') ns in
                 if l \<noteq> CHR ''<'' \<or> length name = length ns \<or> name = []
                    \<or> \<not> list_all is_digit name
                 then Inl TemplateError
                 else add_group (number 10 name)
                        (parse_template (drop (Suc (length name)) ns)))
          else if d = CHR ''0'' then
            (let ods = takeWhile is_octdigit (take 2 ds)
             in add_lit (char_of (number 8 ods mod 256))
                  (parse_template (drop (length ods) ds)))
          else if is_digit d then
            (case ds of
               [] \<Rightarrow> add_group (digit_val d) (parse_template ds)
             | d2 # ds2 \<Rightarrow>
                 if is_digit d2 then
                   (case ds2 of
                      [] \<Rightarrow> add_group (number 10 [d, d2]) (parse_template ds2)
                    | d3 # ds3 \<Rightarrow>
                        if is_octdigit d \<and> is_octdigit d2 \<and> is_octdigit d3 then
                          (if number 8 [d, d2, d3] > 255 then Inl TemplateError
                           else add_lit (char_of (number 8 [d, d2, d3])) (parse_template ds3))
                        else add_group (number 10 [d, d2]) (parse_template ds2))
                 else add_group (digit_val d) (parse_template ds))
          else
            (case escape_char d of
               Some e \<Rightarrow> add_lit e (parse_template ds)
             | None \<Rightarrow>
                 if is_ascii_letter d then Inl TemplateError
                 else add_lit BSL (add_lit d (parse_template ds))))"
  by pat_completeness auto
termination
  by (relation "measure length") auto

fun expand :: "tpart list \<Rightarrow> string \<Rightarrow> string \<Rightarrow> string \<Rightarrow> string" where
  "expand [] w opr v = []"
| "expand (Lit c # ps) w opr v = c # expand ps w opr v"
| "expand (Grp i # ps) w opr v =
     (if i = 0 then w else if i = 1 then opr else v) @ expand ps w opr v"

fun substitute :: "tpart list \<Rightarrow> token list \<Rightarrow> string" where
  "substitute ps [] = []"
| "substitute ps (Plain c # ts) = c # substitute ps ts"
| "substitute ps (Hit w opr v # ts) = expand ps w opr v @ substitute ps ts"

definition re_sub :: "string \<Rightarrow> string \<Rightarrow> py_error + string" where
  \<comment> \<open>\<open>re.sub(pattern, repl, text, flags=re.MULTILINE)\<close>: every match is replaced.\<close>
  "re_sub repl text =
     (case parse_template repl of
        Inl e \<Rightarrow> Inl e
      | Inr ps \<Rightarrow> Inr (substitute ps (re_scan True text)))"

section \<open>The project directory\<close>

text \<open>
  The part of the world the Makefile engine reads and writes: the text files by
  path, the tree under \<open>src\<close> in the order \<open>os.listdir\<close> gives for each directory
  (\<open>None\<close> when \<open>src\<close> does not exist), and the current working directory. The tool
  itself adds the log records and the shell commands it has run.
\<close>

datatype node = File string | Dir string "node list"

record fs =
  files :: "string \<rightharpoonup> string"
  srcdir :: "node list option"
  cwd :: string

datatype level = DEBUG | INFO | WARNING | ERROR

record state =
  disk :: fs
  logs :: "(level \<times> string) list"
  cmds :: "string list"

text \<open>The \<open>argparse.Namespace\<close>: \<open>debug\<close> and \<open>no_norminette\<close> are \<open>None\<close> for a
  subcommand that does not define them (\<open>init\<close>).\<close>

record args =
  libft :: bool
  minilibx :: bool
  debug :: "bool option"
  no_norminette :: "bool option"

definition logging :: "level \<Rightarrow> string \<Rightarrow> state \<Rightarrow> state" where
  "logging lvl msg s = s\<lparr>logs := logs s @ [(lvl, msg)]\<rparr>"

definition exists :: "string \<Rightarrow> state \<Rightarrow> bool" where
  "exists path s = (files (disk s) path \<noteq> None)"

definition read_file :: "string \<Rightarrow> state \<Rightarrow> py_error + string" where
  "read_file path s =
     (case files (disk s) path of None \<Rightarrow> Inl FileNotFoundError | Some t \<Rightarrow> Inr t)"

definition write_file :: "string \<Rightarrow> string \<Rightarrow> state \<Rightarrow> state" where
  "write_file path content s = s\<lparr>disk := (disk s)\<lparr>files := (files (disk s))(path \<mapsto> content)\<rparr>\<rparr>"

definition remove :: "string \<Rightarrow> state \<Rightarrow> state" where
  "remove path s = s\<lparr>disk := (disk s)\<lparr>files := (files (disk s))(path := None)\<rparr>\<rparr>"

definition path_join :: "string \<Rightarrow> string \<Rightarrow> string" where
  \<comment> \<open>\<open>os.path.join\<close> on two components.\<close>
  "path_join a b =
     (if prefix ''/'' b then b
      else if a = [] \<or> suffix ''/'' a then a @ b
      else a @ ''/'' @ b)"

definition basename :: "string \<Rightarrow> string" where
  \<comment> \<open>\<open>os.path.basename\<close>: what follows the last slash.\<close>
  "basename p = rev (takeWhile (\<lambda>c. c \<noteq> CHR ''/'') (rev p))"

section \<open>The pieces of the Makefile\<close>

definition want_debug :: "args \<Rightarrow> bool" where
  \<comment> \<open>\<open>"debug" in args and args.debug\<close>\<close>
  "want_debug a = (debug a = Some True)"

definition get_libs :: "args \<Rightarrow> string" where
  "get_libs a =
     strip ((if libft a then '' libft/libft.a'' else [])
          @ (if minilibx a then '' minilibx/libmlx.a'' else []))"

definition get_c_flags :: "args \<Rightarrow> string" where
  "get_c_flags a =
     strip (''-Wall -Wextra -Werror -I./includes''
          @ (if want_debug a then '' -g'' else [])
          @ (if libft a \<or> minilibx a then '' -I./'' else []))"

definition get_ld_flags :: "args \<Rightarrow> string" where
  "get_ld_flags a =
     strip ((if libft a then '' -L./libft -lft'' else [])
          @ (if minilibx a then '' -L./minilibx -lmlx -lX11 -lXext -lm'' else []))"

definition get_clean_commands :: "args \<Rightarrow> string" where
  "get_clean_commands a =
     rstrip (TAB # ''$(RM) $(OBJS)\<newline>''
          @ (if libft a then TAB # ''$(MAKE) -C libft clean\<newline>'' else [])
          @ (if minilibx a then TAB # ''$(MAKE) -C minilibx clean\<newline>'' else []))"

definition get_fclean_commands :: "args \<Rightarrow> string" where
  "get_fclean_commands a =
     rstrip (TAB # ''$(RM) $(OBJS) $(NAME)\<newline>''
          @ (if libft a then TAB # ''$(MAKE) -C libft fclean\<newline>'' else [])
          @ (if minilibx a then TAB # ''$(MAKE) -C minilibx clean\<newline>'' else []))"

definition get_re_commands :: "args \<Rightarrow> string" where
  "get_re_commands a =
     rstrip ((if libft a then TAB # ''$(MAKE) -C libft re\<newline>'' else [])
          @ (if minilibx a then TAB # ''$(MAKE) -C minilibx re\<newline>'' else []))"

definition get_lib_rules :: "args \<Rightarrow> string" where
  "get_lib_rules a =
     (let rules = (if libft a then ''libft/libft.a:\<newline>'' @ TAB # ''$(MAKE) -C libft\<newline>\<newline>'' else [])
                @ (if minilibx a
                   then ''minilibx/libmlx.a:\<newline>'' @ TAB # ''$(MAKE) -C minilibx\<newline>\<newline>''
                   else [])
      in strip (if rules \<noteq> [] then ''## Libraries ##\<newline>\<newline>'' @ rules else rules))"

text \<open>\<open>get_all_files(path)\<close>, given the listing of \<open>path\<close>: a directory contributes
  its own files where it stands in the listing.\<close>

fun files_under :: "string \<Rightarrow> node \<Rightarrow> string list" where
  "files_under path (File name) = [path_join path name]"
| "files_under path (Dir name entries) =
     concat (map (files_under (path_join path name)) entries)"

definition get_all_files :: "string \<Rightarrow> node list \<Rightarrow> string list" where
  "get_all_files path entries = concat (map (files_under path) entries)"

definition get_sources :: "state \<Rightarrow> py_error + string" where
  "get_sources s =
     (case srcdir (disk s) of
        None \<Rightarrow> Inl FileNotFoundError
      | Some entries \<Rightarrow>
          Inr (join_str '' '' (filter (suffix ''.c'') (get_all_files ''src'' entries))))"

definition get_project_name :: "state \<Rightarrow> string" where
  "get_project_name s = basename (cwd (disk s))"

text \<open>The f-string that \<open>create_makefile\<close> writes, with the source list and the
  project name already computed.\<close>

definition makefile_text :: "args \<Rightarrow> string \<Rightarrow> string \<Rightarrow> string" where
  "makefile_text a srcs name = concat
     [''# Generated using 42 tools, manual changes may be overwritten\<newline>'',
      ''\<newline>'',
      ''## Commands ##\<newline>'',
      ''\<newline>'',
      ''CC = cc\<newline>'',
      ''CFLAGS = '', get_c_flags a, ''\<newline>'',
      ''LDFLAGS = '', get_ld_flags a, ''\<newline>'',
      ''RM = rm -f\<newline>'',
      ''\<newline>'',
      ''## Files ##\<newline>'',
      ''\<newline>'',
      ''SRCS = '', srcs, ''\<newline>'',
      ''OBJS = $(SRCS:src/%.c=obj/%.o)\<newline>'',
      ''\<newline>'',
      ''## Configuration ##\<newline>'',
      ''\<newline>'',
      ''NAME = '', name, ''\<newline>'',
      ''\<newline>'',
      ''## Compilation rules ##\<newline>'',
      ''\<newline>'',
      ''$(NAME): $(OBJS) '', get_libs a, ''\<newline>'',
      TAB # ''$(CC) $(CFLAGS) $(LDFLAGS) -o $@ $^\<newline>'',
      ''\<newline>'',
      ''obj/%.o: src/%.c\<newline>'',
      TAB # ''$(CC) $(CFLAGS) -c -o $@ $<\<newline>'',
      ''\<newline>'',
      ''## Cleaning rules ##\<newline>'',
      ''\<newline>'',
      ''clean:\<newline>'',
      get_clean_commands a, ''\<newline>'',
      ''\<newline>'',
      ''fclean: clean\<newline>'',
      get_fclean_commands a, ''\<newline>'',
      ''\<newline>'',
      ''re: fclean $(NAME)\<newline>'',
      get_re_commands a, ''\<newline>'',
      ''\<newline>'',
      get_lib_rules a, ''\<newline>'']"

section \<open>Patching a vendored build file\<close>

definition update_makefile :: "string \<Rightarrow> args \<Rightarrow> state \<Rightarrow> py_error + (bool option \<times> state)" where
  \<comment> \<open>The result is \<open>True\<close>, \<open>False\<close> or, after the bare \<open>return\<close>, \<open>None\<close>.\<close>
  "update_makefile path a s0 =
     (let s1 = logging DEBUG (''Updating '' @ path @ '' Makefile'') s0 in
      case read_file path s1 of
        Inl e \<Rightarrow> Inl e
      | Inr makefile \<Rightarrow>
          let old_makefile = makefile;
              matches = re_findall makefile
          in if matches = [] then
               Inr (None, logging ERROR
                  (''Could not find CFLAGS in '' @ path @ '', cannot compile with debug flags'') s1)
             else
               let match = hd matches;
                   cflags = strip (snd match);
                   cflags' =
                     (if want_debug a \<and> \<not> sublist ''-g'' cflags then strip (cflags @ '' -g'')
                      else if \<not> want_debug a \<and> sublist ''-g'' cflags
                        then strip (replace ''-g'' '''' cflags)
                      else cflags)
               in (case re_sub (''CFLAGS '' @ fst match @ ''= '' @ cflags') makefile of
                     Inl e \<Rightarrow> Inl e
                   | Inr makefile' \<Rightarrow>
                       if makefile' \<noteq> old_makefile then
                         Inr (Some True, logging DEBUG ''Makefile updated''
                                (write_file path makefile' s1))
                       else Inr (Some False, logging DEBUG ''Makefile not modified'' s1)))"

definition update_libft_makefile :: "args \<Rightarrow> state \<Rightarrow> py_error + (bool option \<times> state)" where
  "update_libft_makefile a s =
     update_makefile ''libft/Makefile'' a (logging DEBUG ''Updating libft Makefile'' s)"

definition update_minilibx_makefile :: "args \<Rightarrow> state \<Rightarrow> py_error + (bool option \<times> state)" where
  "update_minilibx_makefile a s =
     update_makefile ''minilibx/Makefile.mk'' a (logging DEBUG ''Updating minilibx Makefile'' s)"

section \<open>Creating the Makefile\<close>

text \<open>
  \<open>open("Makefile", "w")\<close> comes before the f-string is evaluated, so an exception of
  \<open>get_sources\<close> leaves an empty Makefile behind; the exception ends the run, and the
  model keeps the error only.
\<close>

definition create_makefile :: "args \<Rightarrow> bool \<Rightarrow> state \<Rightarrow> py_error + (bool \<times> state)" where
  "create_makefile a warn_if_exists s0 =
     (let s1 = logging DEBUG ''Creating Makefile'' s0;
          old_makefile = (if exists ''Makefile'' s1 then files (disk s1) ''Makefile'' else None);
          warned = (exists ''Makefile'' s1 \<and> warn_if_exists);
          s2 = (if warned
                then remove ''Makefile'' (logging WARNING ''Deleting existing Makefile'' s1)
                else s1)
      in case get_sources s2 of
           Inl e \<Rightarrow> Inl e
         | Inr srcs \<Rightarrow>
             let s3 = logging DEBUG ''Makefile created/updated successfully''
                        (write_file ''Makefile'' (makefile_text a srcs (get_project_name s2)) s2)
             in (case (if libft a then update_libft_makefile a s3 else Inr (None, s3)) of
                   Inl e \<Rightarrow> Inl e
                 | Inr (r1, s4) \<Rightarrow>
                     (case (if minilibx a then update_minilibx_makefile a s4 else Inr (None, s4)) of
                        Inl e \<Rightarrow> Inl e
                      | Inr (r2, s5) \<Rightarrow>
                          (case read_file ''Makefile'' s5 of
                             Inl e \<Rightarrow> Inl e
                           | Inr new_makefile \<Rightarrow>
                               Inr (warned \<or> r1 = Some True \<or> r2 = Some True
                                      \<or> old_makefile = None \<or> old_makefile = Some []
                                      \<or> old_makefile \<noteq> Some new_makefile, s5)))))"

section \<open>Compiling\<close>

text \<open>An external command is a parameter: given the command line and the project
  directory it returns its exit status and the directory it leaves behind.\<close>

type_synonym shell = "string \<Rightarrow> fs \<Rightarrow> int \<times> fs"

definition run_command :: "shell \<Rightarrow> string \<Rightarrow> bool \<Rightarrow> state \<Rightarrow> py_error + (bool \<times> state)" where
  "run_command sh command check_result s0 =
     (let s1 = logging DEBUG (''Running command: '' @ command) s0;
          (returncode, d) = sh command (disk s1);
          s2 = s1\<lparr>disk := d, cmds := cmds s1 @ [command]\<rparr>
      in if check_result \<and> returncode \<noteq> 0 then Inl CalledProcessError
         else Inr (returncode = 0,
                logging DEBUG
                  (if check_result then ''Command completed successfully''
                   else ''Command completed'') s2))"

definition run_norminette :: "shell \<Rightarrow> state \<Rightarrow> py_error + (bool \<times> state)" where
  "run_norminette sh s0 =
     (case run_command sh ''norminette src includes'' False
             (logging DEBUG ''Running norminette'' s0) of
        Inl e \<Rightarrow> Inl e
      | Inr (res, s1) \<Rightarrow>
          Inr (res, logging DEBUG (if res then ''Norminette passed'' else ''Norminette failed'') s1))"

definition run_make :: "shell \<Rightarrow> args \<Rightarrow> bool \<Rightarrow> state \<Rightarrow> py_error + (bool \<times> state)" where
  "run_make sh a force_rebuild s0 =
     (let command = ''make'' @ (if force_rebuild then '' -B'' else [])
      in case run_command sh command False (logging DEBUG ''Running make'' s0) of
           Inl e \<Rightarrow> Inl e
         | Inr (res, s1) \<Rightarrow>
             Inr (res, logging DEBUG (if res then ''Make passed'' else ''Make failed'') s1))"

definition copy_source_structure :: "state \<Rightarrow> py_error + state" where
  \<comment> \<open>The directories it makes lie under \<open>obj\<close>, outside the modelled part of the
      directory; listing \<open>src\<close> can fail.\<close>
  "copy_source_structure s0 =
     (case srcdir (disk s0) of
        None \<Rightarrow> Inl FileNotFoundError
      | Some entries \<Rightarrow>
          Inr (logging DEBUG ''Source structure copied successfully''
                 (logging DEBUG ''Copying source structure to obj folder'' s0)))"

definition run_compile :: "shell \<Rightarrow> args \<Rightarrow> state \<Rightarrow> py_error + (bool \<times> state)" where
  "run_compile sh a s0 =
     (case create_makefile a False (logging DEBUG ''Running compile'' s0) of
        Inl e \<Rightarrow> Inl e
      | Inr (modified, s1) \<Rightarrow>
          (case (if no_norminette a \<noteq> Some True then run_norminette sh s1 else Inr (True, s1)) of
             Inl e \<Rightarrow> Inl e
           | Inr (_, s2) \<Rightarrow>
               (case copy_source_structure s2 of
                  Inl e \<Rightarrow> Inl e
                | Inr s3 \<Rightarrow>
                    (case run_make sh a modified s3 of
                       Inl e \<Rightarrow> Inl e
                     | Inr (res, s4) \<Rightarrow>
                         Inr (res, logging (if res then INFO else ERROR)
                                (if res then ''Project compiled successfully''
                                 else ''Project failed to compile'') s4)))))"

section \<open>Observations and examples\<close>

definition rewrite :: "string \<Rightarrow> bool \<Rightarrow> string \<Rightarrow> string" where
  "rewrite line bol t = substitute (map Lit line) (re_scan bol t)"

definition flags_line :: "string \<Rightarrow> string \<Rightarrow> string" where
  "flags_line opr v = ''CFLAGS '' @ opr @ ''= '' @ v"

fun retok :: "string \<Rightarrow> string \<Rightarrow> string \<Rightarrow> token \<Rightarrow> token" where
  "retok line opr v (Plain c) = Plain c"
| "retok line opr v (Hit w opr' v') = Hit line opr v"

definition new_cflags :: "bool \<Rightarrow> string \<Rightarrow> string" where
  "new_cflags dbg cflags =
     (if dbg \<and> \<not> sublist ''-g'' cflags then strip (cflags @ '' -g'')
      else if \<not> dbg \<and> sublist ''-g'' cflags then strip (replace ''-g'' '''' cflags)
      else cflags)"

definition patch :: "bool \<Rightarrow> string \<Rightarrow> py_error + (bool option \<times> string)" where
  "patch dbg t =
     (case re_findall t of
        [] \<Rightarrow> Inr (None, t)
      | m # _ \<Rightarrow>
          (case re_sub (flags_line (fst m) (new_cflags dbg (strip (snd m)))) t of
             Inl e \<Rightarrow> Inl e
           | Inr t' \<Rightarrow> Inr (Some (t' \<noteq> t), t')))"

definition stable_flags :: "bool \<Rightarrow> string \<Rightarrow> bool" where
  "stable_flags dbg t =
     (case re_findall t of
        [] \<Rightarrow> True
      | m # _ \<Rightarrow>
          BSL \<notin> set (snd m) \<and>
          (dbg \<or> (strip (replace ''-g'' '''' (strip (snd m))) \<noteq> []
                  \<and> \<not> sublist ''-g'' (replace ''-g'' '''' (strip (snd m))))))"

text \<open>What a call of \<open>update_makefile\<close> returns and the text it leaves at the path.\<close>

definition patched :: "string \<Rightarrow> args \<Rightarrow> state \<Rightarrow> py_error + (bool option \<times> string option)" where
  "patched path a s =
     (case update_makefile path a s of
        Inl e \<Rightarrow> Inl e
      | Inr (r, s') \<Rightarrow> Inr (r, files (disk s') path))"

text \<open>Two calls in a row, the second on the state the first one leaves.\<close>

definition patched_twice :: "string \<Rightarrow> args \<Rightarrow> state \<Rightarrow> py_error + (bool option \<times> string option)" where
  "patched_twice path a s =
     (case update_makefile path a s of
        Inl e \<Rightarrow> Inl e
      | Inr (r, s') \<Rightarrow> patched path a s')"

text \<open>A project directory with the given text files, and the arguments of
  \<open>42 compile\<close> with the two configuration flags and \<open>--debug\<close>.\<close>

definition project :: "(string \<rightharpoonup> string) \<Rightarrow> state" where
  "project fl =
     \<lparr>disk = \<lparr>files = fl, srcdir = Some [File ''main.c'', Dir ''util'' [File ''io.c'', File ''io.h'']],
              cwd = ''/home/student/demo''\<rparr>,
      logs = [], cmds = []\<rparr>"

definition compile_args :: "bool \<Rightarrow> bool \<Rightarrow> bool \<Rightarrow> args" where
  "compile_args l m d = \<lparr>libft = l, minilibx = m, debug = Some d, no_norminette = Some False\<rparr>"

section \<open>Properties\<close>

lemma isspace_simps [simp]:
  "isspace CHR '' ''" "\<not> isspace CHR ''-''" "\<not> isspace CHR ''g''" "\<not> isspace CHR ''C''"
  "\<not> isspace CHR '':''" "\<not> isspace CHR ''?''" "\<not> isspace CHR ''=''" "isspace NL" "\<not> isspace BSL"
  by (simp_all add: isspace_def NL_def BSL_def)

lemma NL_neq [simp]: "NL \<noteq> CHR ''C''" "CHR ''C'' \<noteq> NL" "NL \<noteq> CHR '' ''" "NL \<noteq> CHR ''-''" "NL \<noteq> CHR ''g''"
  "NL \<noteq> CHR ''=''" "NL \<noteq> CHR '':''" "NL \<noteq> CHR ''?''"
  by (simp_all add: NL_def)

lemma BSL_neq [simp]: "BSL \<noteq> CHR ''C''" "BSL \<noteq> CHR ''F''" "BSL \<noteq> CHR ''L''" "BSL \<noteq> CHR ''A''" "BSL \<noteq> CHR ''G''" "BSL \<noteq> CHR ''S''"  "BSL \<noteq> CHR '' ''" "BSL \<noteq> CHR ''-''" "BSL \<noteq> CHR ''g''"
  "BSL \<noteq> CHR ''=''" "BSL \<noteq> CHR '':''" "BSL \<noteq> CHR ''?''"
  by (simp_all add: BSL_def)

lemma set_rstrip: "set (rstrip s) \<subseteq> set s"
  unfolding rstrip_def by (metis set_dropWhileD set_rev subsetI)

lemma set_strip: "set (strip s) \<subseteq> set s"
  unfolding strip_def lstrip_def using set_rstrip set_dropWhileD by fastforce

lemma sublist_rstrip: "sublist (rstrip s) s"
  unfolding rstrip_def by (metis sublist_dropWhile sublist_rev_left)

lemma sublist_strip: "sublist (strip s) s"
  unfolding strip_def lstrip_def using sublist_rstrip sublist_dropWhile sublist_order.order_trans by blast

lemma rstrip_Cons: "\<not> isspace c \<Longrightarrow> rstrip (c # s) = c # rstrip s"
  unfolding rstrip_def by (simp add: dropWhile_append3 dropWhile_append)

lemma rstrip_Cons': "rstrip (c # s) = (if rstrip s = [] \<and> isspace c then [] else c # rstrip s)"
  unfolding rstrip_def by (auto simp: dropWhile_append)

lemma strip_head: "strip s = [] \<or> \<not> isspace (hd (strip s))"
proof (cases "dropWhile isspace s")
  case Nil
  show ?thesis unfolding strip_def lstrip_def Nil by (simp add: rstrip_def)
next
  case (Cons c cs)
  then have "\<not> isspace c"
    by (metis hd_dropWhile list.sel(1) list.distinct(1))
  then show ?thesis
    unfolding strip_def lstrip_def Cons by (simp add: rstrip_Cons)
qed

lemma rstrip_last: "rstrip s = [] \<or> \<not> isspace (last (rstrip s))"
  unfolding rstrip_def by (metis hd_dropWhile hd_rev rev_rev_ident rev_is_Nil_conv)

lemma rstrip_id: "s = [] \<or> \<not> isspace (last s) \<Longrightarrow> rstrip s = s"
  unfolding rstrip_def
  by (cases s rule: rev_cases) auto

lemma strip_last: "strip s = [] \<or> \<not> isspace (last (strip s))"
  unfolding strip_def by (rule rstrip_last)

lemma strip_id: "s = [] \<or> (\<not> isspace (hd s) \<and> \<not> isspace (last s)) \<Longrightarrow> strip s = s"
  unfolding strip_def lstrip_def by (cases s) (auto simp: rstrip_id)

lemma strip_strip: "strip (strip s) = strip s"
  using strip_head[of s] strip_last[of s] by (auto intro: strip_id)

lemma replace_set: "set (replace old [] s) \<subseteq> set s"
proof (induction old "[] :: string" s rule: replace.induct)
  case (1 old)
  then show ?case by simp
next
  case (2 old c cs)
  then show ?case using set_drop_subset[of "length old - 1" cs]
    by (auto simp: drop_Cons' split: if_splits)
qed

lemma replace_absent: "old \<noteq> [] \<Longrightarrow> \<not> sublist old s \<Longrightarrow> replace old new s = s"
  by (induction old new s rule: replace.induct) (auto simp: sublist_Cons_right)

lemma parse_template_plain: "BSL \<notin> set r \<Longrightarrow> parse_template r = Inr (map Lit r)"
  by (induction r) (auto simp: add_lit_def)

lemma expand_plain: "expand (map Lit r) w opr v = r"
  by (induction r) auto

lemma match_at_prefix: "match_at s = Some m \<Longrightarrow> prefix ''CFLAGS'' s"
  by (auto simp: match_at_def split: if_splits)

lemma match_at_not_C: "c \<noteq> CHR ''C'' \<Longrightarrow> match_at (c # cs) = None"
  by (auto simp: match_at_def)

lemma rewrite_Nil [simp]: "rewrite line b [] = []"
  by (simp add: rewrite_def)

lemma rewrite_plain:
  "\<not> b \<or> match_at (c # cs) = None \<Longrightarrow> rewrite line b (c # cs) = c # rewrite line (c = NL) cs"
  by (auto simp: rewrite_def)

lemma rewrite_hit:
  "match_at (c # cs) = Some (opr, v, rest) \<Longrightarrow>
   rewrite line True (c # cs) = line @ rewrite line False rest"
  by (simp add: rewrite_def expand_plain)

lemma rewrite_line_part:
  "NL \<notin> set x \<Longrightarrow> rewrite line False (x @ y) = x @ rewrite line False y"
  by (induction x) (auto simp: rewrite_plain)

lemma rewrite_spaces:
  "\<forall>c\<in>set ws. isspace c \<Longrightarrow>
   rewrite line b (ws @ y) = ws @ rewrite line (if ws = [] then b else last ws = NL) y"
proof (induction ws arbitrary: b)
  case Nil
  then show ?case by simp
next
  case (Cons c ws)
  then have "c \<noteq> CHR ''C''" by auto
  then have "match_at (c # ws @ y) = None" by (rule match_at_not_C)
  then have "rewrite line b ((c # ws) @ y) = c # rewrite line (c = NL) (ws @ y)"
    by (simp add: rewrite_plain)
  then show ?case using Cons by simp
qed

lemma rewrite_hd:
  assumes "hd line = CHR ''C''" "line \<noteq> []" "y \<noteq> []"
  shows "rewrite line b y \<noteq> [] \<and> hd (rewrite line b y) = hd y"
proof (cases y)
  case Nil
  then show ?thesis using assms by simp
next
  case (Cons c cs)
  show ?thesis
  proof (cases "b \<and> match_at (c # cs) \<noteq> None")
    case True
    then obtain opr v rest where m: "match_at (c # cs) = Some (opr, v, rest)"
      by (metis option.exhaust prod_cases3)
    have "c = CHR ''C''" using match_at_prefix[OF m] by (auto simp: prefix_def)
    then show ?thesis using True m assms Cons by (simp add: rewrite_hit)
  next
    case False
    then have "\<not> b \<or> match_at (c # cs) = None" by blast
    then show ?thesis using Cons by (simp add: rewrite_plain)
  qed
qed

lemma rewrite_eq_Nil:
  assumes "hd line = CHR ''C''" "line \<noteq> []"
  shows "rewrite line b y = [] \<longleftrightarrow> y = []"
  using rewrite_hd[OF assms] by (cases y) auto

lemma match_op_rewrite:
  assumes l: "hd line = CHR ''C''" "line \<noteq> []" and n: "match_op y = None"
  shows "match_op (rewrite line b y) = None"
proof (cases y)
  case Nil
  then show ?thesis by (simp add: match_op_def)
next
  case (Cons c cs)
  have hd: "hd (rewrite line b y) = c" "rewrite line b y \<noteq> []"
    using rewrite_hd[OF l, of y b] Cons by auto
  have ceq: "c \<noteq> CHR ''=''" using n Cons by (auto simp: match_op_def)
  show ?thesis
  proof (cases "c = CHR '':'' \<or> c = CHR ''?''")
    case False
    then show ?thesis using hd ceq
      by (cases "rewrite line b y") (auto simp: match_op_def)
  next
    case True
    then have "match_at (c # cs) = None" by (auto intro: match_at_not_C)
    then have r: "rewrite line b y = c # rewrite line False cs"
      using Cons True by (auto simp: rewrite_plain NL_def)
    have "cs = [] \<or> hd cs \<noteq> CHR ''=''"
      using n Cons True by (cases cs) (auto simp: match_op_def)
    then have "rewrite line False cs = [] \<or> hd (rewrite line False cs) \<noteq> CHR ''=''"
      using rewrite_hd[OF l, of cs False] by (cases "cs = []") auto
    then show ?thesis using True unfolding r
      by (cases "rewrite line False cs") (auto simp: match_op_def)
  qed
qed

lemma prefix_rewrite:
  "NL \<notin> set x \<Longrightarrow> prefix x (rewrite line False y) \<Longrightarrow> prefix x y"
proof (induction x arbitrary: y)
  case Nil
  then show ?case by simp
next
  case (Cons a x)
  then show ?case
    by (cases y) (auto simp: rewrite_plain)
qed

lemma match_at_rewrite:
  assumes l: "hd line = CHR ''C''" "line \<noteq> []" and n: "match_at (c # cs) = None"
  shows "match_at (c # rewrite line (c = NL) cs) = None"
proof (cases "prefix ''CFLAGS'' (c # cs)")
  case False
  have "\<not> prefix ''CFLAGS'' (c # rewrite line (c = NL) cs)"
  proof
    assume p: "prefix ''CFLAGS'' (c # rewrite line (c = NL) cs)"
    then have c: "c = CHR ''C''" by simp
    with p have "prefix ''FLAGS'' (rewrite line False cs)" by (simp add: NL_def)
    then have "prefix ''FLAGS'' cs"
      by (rule prefix_rewrite[rotated]) (simp add: NL_def)
    with c False show False by simp
  qed
  then show ?thesis unfolding match_at_def by (rule if_not_P)
next
  case True
  then obtain r where cs: "c = CHR ''C''" "cs = ''FLAGS'' @ r"
    by (auto simp: prefix_def)
  define ws where "ws = takeWhile isspace r"
  define y where "y = dropWhile isspace r"
  have r: "r = ws @ y" by (simp add: ws_def y_def)
  have wsp: "\<forall>c\<in>set ws. isspace c"
    unfolding ws_def by (metis set_takeWhileD)
  have yh: "y = [] \<or> \<not> isspace (hd y)"
    unfolding y_def by (metis hd_dropWhile)
  have mo: "match_op y = None"
    using n cs by (auto simp: match_at_def y_def Let_def split: option.splits)
  obtain b' where rw: "rewrite line False r = ws @ rewrite line b' y"
    unfolding r using rewrite_spaces[OF wsp] by blast
  have "rewrite line (c = NL) cs = ''FLAGS'' @ rewrite line False r"
    using cs rewrite_line_part[of "''FLAGS''" line r] by (simp add: NL_def)
  then have full: "c # rewrite line (c = NL) cs = ''CFLAGS'' @ ws @ rewrite line b' y"
    using cs rw by simp
  have "rewrite line b' y = [] \<or> \<not> isspace (hd (rewrite line b' y))"
    using yh rewrite_hd[OF l, of y b'] by (cases "y = []") auto
  then have dw: "dropWhile isspace (ws @ rewrite line b' y) = rewrite line b' y"
    using wsp by (cases "rewrite line b' y") (auto simp: dropWhile_append)
  show ?thesis
    unfolding full using dw match_op_rewrite[OF l mo, of b']
    by (simp add: match_at_def)
qed

lemma match_at_flags_line:
  assumes o: "opr = [] \<or> opr = '':'' \<or> opr = ''?''"
    and v: "v \<noteq> []" "\<not> isspace (hd v)" "NL \<notin> set v"
    and x: "X = [] \<or> hd X = NL"
  shows "match_at (flags_line opr v @ X) = Some (opr, v, X)"
proof -
  have mo: "match_op (opr @ ''= '' @ v @ X) = Some (opr, '' '' @ v @ X)"
    using o by (auto simp: match_op_def)
  have dv: "dropWhile isspace (v @ X) = v @ X"
    using v by (cases v) auto
  have tw: "takeWhile (\<lambda>c. c \<noteq> NL) (v @ X) = v"
    using v(3) x by (cases X) (auto simp: takeWhile_append)
  have dw: "dropWhile (\<lambda>c. c \<noteq> NL) (v @ X) = X"
    using v(3) x by (cases X) (auto simp: dropWhile_append)
  have d1: "dropWhile isspace ('' '' @ opr @ ''= '' @ v @ X) = opr @ ''= '' @ v @ X"
    using o by auto
  show ?thesis
    using mo dv tw dw d1 by (simp add: match_at_def flags_line_def)
qed

lemma match_at_rest:
  assumes "match_at s = Some (opr, v, rest)"
  shows "rest = [] \<or> hd rest = NL"
proof -
  from assms obtain x where "rest = dropWhile (\<lambda>c. c \<noteq> NL) x"
    by (auto simp: match_at_def Let_def split: if_splits option.splits)
  then show ?thesis
    using hd_dropWhile[of "\<lambda>c. c \<noteq> NL" x] by auto
qed

lemma rescan:
  assumes o: "opr = [] \<or> opr = '':'' \<or> opr = ''?''"
    and v: "v \<noteq> []" "\<not> isspace (hd v)" "NL \<notin> set v"
  shows "re_scan b (rewrite (flags_line opr v) b t)
         = map (retok (flags_line opr v) opr v) (re_scan b t)"
proof (induction b t rule: re_scan.induct)
  case (1 bol)
  then show ?case by simp
next
  case (2 bol c cs)
  let ?line = "flags_line opr v"
  have l: "hd ?line = CHR ''C''" "?line \<noteq> []" by (simp_all add: flags_line_def)
  show ?case
  proof (cases "bol \<and> match_at (c # cs) \<noteq> None")
    case True
    then obtain opr' v' rest where m: "match_at (c # cs) = Some (opr', v', rest)"
      by (metis option.exhaust prod_cases3)
    let ?X = "rewrite ?line False rest"
    have rest: "rest = [] \<or> hd rest = NL" using m by (rule match_at_rest)
    have X: "?X = [] \<or> hd ?X = NL"
      using rest rewrite_hd[OF l, of rest False] by (cases "rest = []") auto
    have mm: "match_at (?line @ ?X) = Some (opr, v, ?X)"
      using o v X by (rule match_at_flags_line)
    obtain l' where lc: "?line = CHR ''C'' # l'" by (simp add: flags_line_def)
    have "re_scan True (?line @ ?X) = Hit ?line opr v # re_scan False ?X"
      using mm unfolding lc by simp
    moreover have "re_scan False ?X = map (retok ?line opr v) (re_scan False rest)"
      using True by (intro 2(2)[OF _ m refl refl]) simp
    ultimately show ?thesis using True m by (simp add: rewrite_hit)
  next
    case False
    then have nb: "\<not> bol \<or> match_at (c # cs) = None"
      by blast
    then have rw: "rewrite ?line bol (c # cs) = c # rewrite ?line (c = NL) cs"
      by (rule rewrite_plain)
    have sc: "re_scan bol (c # cs) = Plain c # re_scan (c = NL) cs"
      using nb by auto
    have ih: "re_scan (c = NL) (rewrite ?line (c = NL) cs)
              = map (retok ?line opr v) (re_scan (c = NL) cs)"
      using 2(1,3) nb by (cases bol) auto
    have "bol \<Longrightarrow> match_at (c # rewrite ?line (c = NL) cs) = None"
      using nb match_at_rewrite[OF l] by auto
    then have "re_scan bol (c # rewrite ?line (c = NL) cs)
               = Plain c # re_scan (c = NL) (rewrite ?line (c = NL) cs)"
      by auto
    then show ?thesis unfolding rw sc using ih by simp
  qed
qed

lemma hits_retok: "hits (map (retok line opr v) ts) = map (\<lambda>_. (opr, v)) (hits ts)"
  by (induction ts rule: hits.induct) auto

lemma substitute_retok:
  "substitute (map Lit line) (map (retok line opr v) ts) = substitute (map Lit line) ts"
  by (induction ts rule: hits.induct) (auto simp: expand_plain)

lemma update_makefile_missing:
  "files (disk s) path = None \<Longrightarrow> update_makefile path a s = Inl FileNotFoundError"
  by (simp add: update_makefile_def read_file_def logging_def)

lemma update_makefile_patch:
  assumes "files (disk s) path = Some t"
  shows "case patch (want_debug a) t of
           Inl e \<Rightarrow> update_makefile path a s = Inl e
         | Inr (r, t') \<Rightarrow>
             (\<exists>s'. update_makefile path a s = Inr (r, s')
                   \<and> disk s' = (disk s)\<lparr>files := (files (disk s))(path \<mapsto> t')\<rparr>
                   \<and> cmds s' = cmds s
                   \<and> (\<exists>lg. logs s' = logs s @ lg
                        \<and> (r = None \<longrightarrow> lg = [(DEBUG, ''Updating '' @ path @ '' Makefile''),
                               (ERROR, ''Could not find CFLAGS in '' @ path @ '', cannot compile with debug flags'')])))"
proof -
  have triv: "(disk s)\<lparr>files := (files (disk s))(path \<mapsto> t)\<rparr> = disk s"
    using assms by (simp add: map_upd_triv)
  show ?thesis
  proof (cases "re_findall t")
    case Nil
    then show ?thesis
      using assms triv
      by (simp add: patch_def update_makefile_def read_file_def logging_def Let_def)
  next
    case (Cons m ms)
    show ?thesis
    proof (cases "re_sub (flags_line (fst m) (new_cflags (want_debug a) (strip (snd m)))) t")
      case (Inl e)
      then show ?thesis
        using assms Cons
        by (simp add: patch_def update_makefile_def read_file_def logging_def
            new_cflags_def flags_line_def Let_def)
    next
      case (Inr t')
      then show ?thesis
        using assms Cons triv
        by (cases "t' = t")
          (auto simp: patch_def update_makefile_def read_file_def logging_def
            new_cflags_def flags_line_def write_file_def Let_def)
    qed
  qed
qed

lemma scan_groups:
  "(opr, v) \<in> set (hits (re_scan b t)) \<Longrightarrow>
   (opr = [] \<or> opr = '':'' \<or> opr = ''?'') \<and> NL \<notin> set v"
proof (induction b t rule: re_scan.induct)
  case (1 bol)
  then show ?case by simp
next
  case (2 bol c cs)
  show ?case
  proof (cases "bol \<and> match_at (c # cs) \<noteq> None")
    case True
    then obtain opr' v' rest where m: "match_at (c # cs) = Some (opr', v', rest)"
      by (metis option.exhaust prod_cases3)
    have g: "(opr' = [] \<or> opr' = '':'' \<or> opr' = ''?'') \<and> NL \<notin> set v'"
      using m by (auto simp: match_at_def match_op_def Let_def
          split: if_splits option.splits dest: set_takeWhileD)
    from 2(4) True m have "(opr, v) = (opr', v') \<or> (opr, v) \<in> set (hits (re_scan False rest))"
      by simp
    then show ?thesis
      using g 2(2)[OF _ m refl refl] True by auto
  next
    case False
    then have nb: "\<not> bol \<or> match_at (c # cs) = None" by blast
    then have "(opr, v) \<in> set (hits (re_scan (c = NL) cs))"
      using 2(4) by (cases bol) auto
    then show ?thesis using 2(1,3) nb by (cases bol) auto
  qed
qed

lemma findall_groups:
  "re_findall t = (opr, v) # ms \<Longrightarrow> (opr = [] \<or> opr = '':'' \<or> opr = ''?'') \<and> NL \<notin> set v"
  using scan_groups[of opr v True t] by (simp add: re_findall_def)

lemma new_cflags_set: "set (new_cflags dbg x) \<subseteq> set x \<union> {CHR '' '', CHR ''-'', CHR ''g''}"
  using set_strip[of "x @ '' -g''"] set_strip[of "replace ''-g'' '''' x"] replace_set[of "''-g''" x]
  by (auto simp: new_cflags_def)

lemma re_sub_plain:
  assumes "opr = [] \<or> opr = '':'' \<or> opr = ''?''" "BSL \<notin> set v"
  shows "re_sub (flags_line opr v) t = Inr (rewrite (flags_line opr v) True t)"
proof -
  have "BSL \<notin> set (flags_line opr v)"
    using assms by (auto simp: flags_line_def)
  then show ?thesis
    by (simp add: re_sub_def parse_template_plain rewrite_def)
qed

lemma patch_plain:
  assumes m: "re_findall t = (opr, v) # ms" and b: "BSL \<notin> set v"
  shows "patch dbg t =
         (let t' = rewrite (flags_line opr (new_cflags dbg (strip v))) True t
          in Inr (Some (t' \<noteq> t), t'))"
proof -
  have "BSL \<notin> set (new_cflags dbg (strip v))"
    using new_cflags_set[of dbg "strip v"] set_strip[of v] b by auto
  then show ?thesis
    using m findall_groups[OF m] by (simp add: patch_def re_sub_plain Let_def)
qed

lemma strip_append_g: "strip x = x \<Longrightarrow> strip (x @ '' -g'') = (if x = [] then ''-g'' else x @ '' -g'')"
proof (cases x)
  case Nil
  then show ?thesis by (simp add: strip_def lstrip_def rstrip_def)
next
  case (Cons c cs)
  assume "strip x = x"
  then have "\<not> isspace c" using strip_head[of x] Cons by auto
  then have "lstrip (x @ '' -g'') = x @ '' -g''" using Cons by (simp add: lstrip_def)
  moreover have "rstrip (x @ '' -g'') = x @ '' -g''" by (rule rstrip_id) simp
  ultimately show ?thesis using Cons by (simp add: strip_def)
qed

lemma new_cflags_stripped: "strip x = x \<Longrightarrow> strip (new_cflags dbg x) = new_cflags dbg x"
  by (auto simp: new_cflags_def strip_strip)

lemma sublist_append_g: "sublist ''-g'' (x @ '' -g'')"
proof -
  have "x @ '' -g'' = (x @ '' '') @ ''-g'' @ []" by simp
  then show ?thesis by (metis sublist_appendI)
qed

lemma new_cflags_stable_debug: "strip x = x \<Longrightarrow> sublist ''-g'' (new_cflags True x)"
  by (auto simp: new_cflags_def strip_append_g sublist_append_g)

lemma new_cflags_no_g:
  assumes "\<not> sublist ''-g'' (replace ''-g'' '''' x)"
  shows "\<not> sublist ''-g'' (new_cflags False x)"
proof (cases "sublist ''-g'' x")
  case True
  then show ?thesis
    using assms sublist_strip[of "replace ''-g'' '''' x"]
    by (auto simp: new_cflags_def dest: sublist_order.order_trans)
next
  case False
  then show ?thesis by (simp add: new_cflags_def)
qed

lemma new_cflags_fix:
  assumes x: "strip x = x"
    and st: "dbg \<or> \<not> sublist ''-g'' (replace ''-g'' '''' x)"
  shows "new_cflags dbg (new_cflags dbg x) = new_cflags dbg x"
proof (cases dbg)
  case True
  then show ?thesis
    using new_cflags_stable_debug[OF x] by (simp add: new_cflags_def)
next
  case False
  then show ?thesis
    using new_cflags_no_g[of x] st by (simp add: new_cflags_def)
qed

lemma new_cflags_nonempty:
  assumes x: "strip x = x"
    and st: "dbg \<or> strip (replace ''-g'' '''' x) \<noteq> []"
  shows "new_cflags dbg x \<noteq> []"
proof (cases dbg)
  case True
  then show ?thesis using new_cflags_stable_debug[OF x] by auto
next
  case False
  then show ?thesis using st x by (auto simp: new_cflags_def replace_absent)
qed

lemma patch_rewritten:
  assumes m: "re_findall t = (opr, v) # ms" and b: "BSL \<notin> set v"
    and ne: "new_cflags dbg (strip v) \<noteq> []"
  defines "v' \<equiv> new_cflags dbg (strip v)"
  defines "t' \<equiv> rewrite (flags_line opr v') True t"
  shows "re_findall t' = (opr, v') # map (\<lambda>_. (opr, v')) ms"
    and "rewrite (flags_line opr v') True t' = t'"
    and "BSL \<notin> set v'" and "strip v' = v'"
proof -
  have g: "opr = [] \<or> opr = '':'' \<or> opr = ''?''" "NL \<notin> set v"
    using findall_groups[OF m] by auto
  have sv: "strip v' = v'"
    unfolding v'_def by (rule new_cflags_stripped) (rule strip_strip)
  have hd: "\<not> isspace (hd v')"
    using strip_head[of v'] sv ne by (auto simp: v'_def)
  have sub: "set v' \<subseteq> set v \<union> {CHR '' '', CHR ''-'', CHR ''g''}"
    unfolding v'_def using new_cflags_set[of dbg "strip v"] set_strip[of v] by auto
  have nl: "NL \<notin> set v'" using sub g(2) by auto
  show bs: "BSL \<notin> set v'" using sub b by auto
  have rs: "re_scan True t' = map (retok (flags_line opr v') opr v') (re_scan True t)"
    unfolding t'_def using g(1) ne hd nl by (intro rescan) (simp_all add: v'_def)
  show "re_findall t' = (opr, v') # map (\<lambda>_. (opr, v')) ms"
    using m by (simp add: re_findall_def rs hits_retok)
  have "rewrite (flags_line opr v') True t'
        = substitute (map Lit (flags_line opr v')) (re_scan True t)"
    unfolding rewrite_def rs substitute_retok ..
  then show "rewrite (flags_line opr v') True t' = t'"
    by (simp add: t'_def rewrite_def)
  show "strip v' = v'" by (rule sv)
qed

lemma patch_idempotent:
  assumes m: "re_findall t \<noteq> []" and st: "stable_flags dbg t"
  shows "\<exists>r t'. patch dbg t = Inr (r, t') \<and> patch dbg t' = Inr (Some False, t')
                \<and> stable_flags dbg t'"
proof -
  obtain opr v ms where f: "re_findall t = (opr, v) # ms"
    using m by (cases "re_findall t") auto
  have b: "BSL \<notin> set v"
    and c: "dbg \<or> (strip (replace ''-g'' '''' (strip v)) \<noteq> []
                 \<and> \<not> sublist ''-g'' (replace ''-g'' '''' (strip v)))"
    using st f by (auto simp: stable_flags_def)
  define v' where "v' = new_cflags dbg (strip v)"
  define t' where "t' = rewrite (flags_line opr v') True t"
  have ne: "new_cflags dbg (strip v) \<noteq> []"
    using c by (intro new_cflags_nonempty) (auto simp: strip_strip)
  have fx: "new_cflags dbg v' = v'"
    unfolding v'_def using c by (intro new_cflags_fix) (auto simp: strip_strip)
  note pr = patch_rewritten[OF f b ne, folded v'_def, folded t'_def]
  have p1: "patch dbg t = Inr (Some (t' \<noteq> t), t')"
    using patch_plain[OF f b, of dbg] by (simp add: Let_def v'_def t'_def)
  have p2: "patch dbg t' = Inr (Some False, t')"
    using patch_plain[OF pr(1) pr(3), of dbg] pr(2,4) fx by (simp add: Let_def)
  have "dbg \<or> (strip (replace ''-g'' '''' v') \<noteq> [] \<and> \<not> sublist ''-g'' (replace ''-g'' '''' v'))"
  proof (cases dbg)
    case True
    then show ?thesis by simp
  next
    case False
    then have "\<not> sublist ''-g'' v'"
      unfolding v'_def using c new_cflags_no_g[of "strip v"] by auto
    then show ?thesis using ne pr(4) by (simp add: replace_absent v'_def)
  qed
  then have "stable_flags dbg t'"
    using pr(1,3,4) by (simp add: stable_flags_def)
  then show ?thesis using p1 p2 by blast
qed

text \<open>
  C4, as amended. When the value of the first flags line holds no backslash and, with
  debug off, taking every \<open>-g\<close> out of it leaves a value that is not blank and holds no
  \<open>-g\<close> (\<open>stable_flags\<close>), a second call of \<open>update_makefile\<close> with the same debug
  state returns \<open>False\<close> and leaves the directory as the first call left it.
\<close>

theorem update_makefile_second_call_no_op:
  assumes "files (disk s) path = Some t" and "re_findall t \<noteq> []"
    and "stable_flags (want_debug a) t"
  shows "\<exists>r s1 s2. update_makefile path a s = Inr (r, s1)
           \<and> update_makefile path a s1 = Inr (Some False, s2) \<and> disk s2 = disk s1"
proof -
  obtain r t' where p1: "patch (want_debug a) t = Inr (r, t')"
    and p2: "patch (want_debug a) t' = Inr (Some False, t')"
    using patch_idempotent[OF assms(2,3)] by blast
  obtain s1 where u1: "update_makefile path a s = Inr (r, s1)"
    and d1: "disk s1 = (disk s)\<lparr>files := (files (disk s))(path \<mapsto> t')\<rparr>"
    using update_makefile_patch[OF assms(1), of a] p1 by auto
  have f1: "files (disk s1) path = Some t'" by (simp add: d1)
  obtain s2 where u2: "update_makefile path a s1 = Inr (Some False, s2)"
    and d2: "disk s2 = (disk s1)\<lparr>files := (files (disk s1))(path \<mapsto> t')\<rparr>"
    using update_makefile_patch[OF f1, of a] p2 by auto
  have "disk s2 = disk s1" using d2 f1 by (simp add: map_upd_triv)
  then show ?thesis using u1 u2 by blast
qed

theorem update_makefile_second_call_no_op_witness:
  "files (disk (project [''libft/Makefile'' \<mapsto> ''CFLAGS=-Wall -g\<newline>all:\<newline>''])) ''libft/Makefile''
     = Some ''CFLAGS=-Wall -g\<newline>all:\<newline>''
   \<and> re_findall ''CFLAGS=-Wall -g\<newline>all:\<newline>'' \<noteq> []
   \<and> stable_flags (want_debug (compile_args True False False)) ''CFLAGS=-Wall -g\<newline>all:\<newline>''
   \<and> (\<exists>r s1 s2.
        update_makefile ''libft/Makefile'' (compile_args True False False)
          (project [''libft/Makefile'' \<mapsto> ''CFLAGS=-Wall -g\<newline>all:\<newline>'']) = Inr (r, s1)
        \<and> update_makefile ''libft/Makefile'' (compile_args True False False) s1 = Inr (Some False, s2)
        \<and> disk s2 = disk s1)"
proof -
  have h1: "files (disk (project [''libft/Makefile'' \<mapsto> ''CFLAGS=-Wall -g\<newline>all:\<newline>''])) ''libft/Makefile''
     = Some ''CFLAGS=-Wall -g\<newline>all:\<newline>''"
    by (simp add: project_def)
  have h2: "re_findall ''CFLAGS=-Wall -g\<newline>all:\<newline>'' \<noteq> []"
    by code_simp
  have h3: "stable_flags (want_debug (compile_args True False False)) ''CFLAGS=-Wall -g\<newline>all:\<newline>''"
    by code_simp
  show ?thesis
    using update_makefile_second_call_no_op[OF h1 h2 h3] h1 h2 h3 by blast
qed

text \<open>
  C4 as stated fails: with debug off the value \<open>--gg\<close> becomes \<open>-g\<close> in the first call,
  and the second call rewrites the file again and returns \<open>True\<close>.
\<close>

theorem second_call_rewrites_again:
  "patched_twice ''libft/Makefile'' (compile_args True False False)
     (project [''libft/Makefile'' \<mapsto> ''CFLAGS = --gg\<newline>''])
   = Inr (Some True, Some ''CFLAGS = \<newline>'')"
  by code_simp

text \<open>
  C10. The flags line is written back as \<open>CFLAGS <op>= <value>\<close> with single spaces:
  for \<open>CFLAGS=-Wall\<close> with debug off, where the debug state already agrees, the first
  call rewrites the file and returns \<open>True\<close>; on the canonical line it returns \<open>False\<close>.
\<close>

theorem noncanonical_spacing_reports_modified:
  "patched ''libft/Makefile'' (compile_args True False False)
     (project [''libft/Makefile'' \<mapsto> ''CFLAGS=-Wall\<newline>''])
   = Inr (Some True, Some ''CFLAGS = -Wall\<newline>'')
   \<and> want_debug (compile_args True False False) = sublist ''-g'' ''-Wall''
   \<and> patched ''libft/Makefile'' (compile_args True False False)
     (project [''libft/Makefile'' \<mapsto> ''CFLAGS = -Wall\<newline>''])
   = Inr (Some False, Some ''CFLAGS = -Wall\<newline>'')"
  by code_simp

text \<open>
  C3 fails on the code: \<open>re.sub\<close> is called without \<open>count=1\<close>, so a second line that
  matches the pattern is overwritten with the line built from the first match.
\<close>

theorem every_flags_line_is_overwritten:
  "patched ''libft/Makefile'' (compile_args True False True)
     (project [''libft/Makefile'' \<mapsto> ''CFLAGS = -Wall\<newline>CFLAGS := -O2\<newline>''])
   = Inr (Some True, Some ''CFLAGS = -Wall -g\<newline>CFLAGS = -Wall -g\<newline>'')"
  by code_simp

text \<open>
  C5 fails on the code: the new line is handed to \<open>re.sub\<close> as a template, so a value
  that ends in a backslash (a continued line) raises instead of losing its \<open>-g\<close>.
\<close>

theorem continuation_backslash_raises:
  "patched ''libft/Makefile'' (compile_args True False False)
     (project [''libft/Makefile'' \<mapsto> ''CFLAGS = -Wall -g '' @ [BSL] @ ''\<newline>'' @ [TAB] @ ''-O2\<newline>''])
   = Inl TemplateError"
  by code_simp

end
